theory Spec2Isabelle
  imports Main "HOL-Library.AList"
begin

section \<open>Values, dictionaries and data frames\<close>

text \<open>
  A cell of a table is a JSON scalar. \<open>Null\<close> stands for every value pandas counts as
  missing (\<open>None\<close>, \<open>NaN\<close>); the program never computes with the numbers, so they are
  kept as integers.
\<close>

datatype scalar = Null | Str string | Number int | Boolean bool

text \<open>
  A Python \<open>dict\<close> with string keys: an association list in insertion order.
  \<open>d[k] = v\<close> is \<^const>\<open>AList.update\<close> (an existing key keeps its place, a new one goes
  last) and \<open>d.get(k)\<close> is \<^const>\<open>map_of\<close>.
\<close>

type_synonym py_dict = "(string \<times> scalar) list"

text \<open>
  A pandas \<open>Series\<close> is the list of its values; a \<open>DataFrame\<close> is the list of its
  columns, each a label with its series, in column order. The frames of this program have
  distinct labels and series of one length (\<open>wf_frame\<close> below): the file loaders rename
  duplicated headers, and the other frames are built from dictionaries.
\<close>

type_synonym series = "scalar list"
type_synonym dataframe = "(string \<times> series) list"

definition columns :: "dataframe \<Rightarrow> string list" where
  "columns df = map fst df"

text \<open>\<open>len(df)\<close>: the number of rows; a frame without columns, \<open>pd.DataFrame()\<close>, has none.\<close>

definition len_df :: "dataframe \<Rightarrow> nat" where
  "len_df df = (case df of [] \<Rightarrow> 0 | (c, s) # _ \<Rightarrow> length s)"

definition wf_frame :: "dataframe \<Rightarrow> bool" where
  "wf_frame df = (distinct (columns df) \<and> list_all (\<lambda>(c, s). length s = len_df df) df)"

text \<open>\<open>df[c]\<close> for a label \<open>c\<close> of the frame. The program only reads labels it took from
  \<open>df.columns\<close>, so the \<open>KeyError\<close> of pandas cannot arise; the model returns the empty
  series for an absent label.\<close>

definition getitem :: "dataframe \<Rightarrow> string \<Rightarrow> series" where
  "getitem df c = (case map_of df c of Some s \<Rightarrow> s | None \<Rightarrow> [])"

text \<open>\<open>df.to_dict('records')\<close>: one dictionary per row, keyed by the column labels.\<close>

definition row_at :: "dataframe \<Rightarrow> nat \<Rightarrow> py_dict" where
  "row_at df i = map (\<lambda>(c, s). (c, s ! i)) df"

definition to_dict_records :: "dataframe \<Rightarrow> py_dict list" where
  "to_dict_records df = map (row_at df) [0..<len_df df]"

text \<open>A record with a missing field, as the records of \<open>to_dict_records\<close> show it.\<close>

definition has_missing :: "py_dict \<Rightarrow> bool" where
  "has_missing r = list_ex (\<lambda>(k, v). v = Null) r"

text \<open>\<open>pd.DataFrame(data)\<close> for a list of dictionaries: the columns are the keys in order of
  first appearance, and a key a row lacks is missing there. The values are kept as they
  are: the conversion pandas makes of an integer column with a missing value to floating
  point numbers is not modelled.\<close>

definition first_seen :: "string list \<Rightarrow> string list" where
  "first_seen ks = rev (remdups (rev ks))"

definition DataFrame :: "py_dict list \<Rightarrow> dataframe" where
  "DataFrame data =
     map (\<lambda>k. (k, map (\<lambda>r. case map_of r k of Some v \<Rightarrow> v | None \<Rightarrow> Null) data))
       (first_seen (concat (map (map fst) data)))"

text \<open>\<open>df.dropna()\<close>: the positions of the rows without a missing value are computed over
  all columns, and every column keeps the values at these positions.\<close>

definition notna_at :: "dataframe \<Rightarrow> nat \<Rightarrow> bool" where
  "notna_at df i = list_all (\<lambda>(c, s). s ! i \<noteq> Null) df"

definition dropna :: "dataframe \<Rightarrow> dataframe" where
  "dropna df =
     (let keep = filter (notna_at df) [0..<len_df df]
      in map (\<lambda>(c, s). (c, map (\<lambda>i. s ! i) keep)) df)"

text \<open>\<open>df.head(n)\<close> for \<open>n \<ge> 0\<close>: the first \<open>n\<close> values of every column.\<close>

definition head :: "dataframe \<Rightarrow> nat \<Rightarrow> dataframe" where
  "head df n = map (\<lambda>(c, s). (c, take n s)) df"

text \<open>\<open>str(n)\<close> for a number of rows, as the f-strings of the program use it.\<close>

definition digit_char :: "nat \<Rightarrow> char" where
  "digit_char d = ''0123456789'' ! d"

fun str_nat :: "nat \<Rightarrow> string" where
  "str_nat n = (if n < 10 then [digit_char n] else str_nat (n div 10) @ [digit_char (n mod 10)])"

declare str_nat.simps [simp del]

text \<open>\<open>s.lower()\<close> on the ASCII letters.\<close>

definition lower_char :: "char \<Rightarrow> char" where
  "lower_char c =
     (case map_of (zip ''ABCDEFGHIJKLMNOPQRSTUVWXYZ'' ''abcdefghijklmnopqrstuvwxyz'') c of
        Some l \<Rightarrow> l
      | None \<Rightarrow> c)"

definition lower :: "string \<Rightarrow> string" where
  "lower s = map lower_char s"

section \<open>The store client and the page\<close>

text \<open>
  The Supabase client is outside the program. A query that is executed is a \<open>call\<close>; the
  client answers it from a state of its own, either raising an exception (\<open>Inl\<close>, with
  the text \<open>str(e)\<close>) or returning \<open>response.data\<close> (\<open>Inr\<close>).
\<close>

datatype payload = One py_dict | Many "py_dict list"

datatype call =
    Select string nat
  | Insert string payload
  | Update string py_dict string scalar
  | Delete string string scalar

type_synonym 's client = "call \<Rightarrow> 's \<Rightarrow> (string + py_dict list) \<times> 's"

text \<open>
  What the page shows with \<open>st.success\<close>, \<open>st.error\<close>, \<open>st.warning\<close> and \<open>st.info\<close>.
  \<open>Listing l p xs\<close> is the f-string \<open>p\<close> followed by \<open>', '.join(xs)\<close>; \<open>Listing_set\<close> is
  the same for a Python \<open>set\<close>, whose iteration order is not determined. Widgets that only
  draw (titles, tables, balloons) and the pictographs in front of a message are left out.
\<close>

datatype level = Success | Error | Warning | Info

datatype ui_msg =
    Text level string
  | Listing level string "string list"
  | Listing_set level string "string set"

text \<open>
  The world a run of the page acts on: the state of the store, the calls executed so far,
  what has been shown, and the \<open>DataFrame\<close> objects of the bulk upload, addressed by
  their position in \<open>frames\<close>.
\<close>

record 's world =
  db :: 's
  calls :: "call list"
  ui :: "ui_msg list"
  frames :: "dataframe list"

definition execute :: "'s client \<Rightarrow> call \<Rightarrow> 's world \<Rightarrow> (string + py_dict list) \<times> 's world" where
  "execute cl c w =
     (case cl c (db w) of (r, s') \<Rightarrow> (r, w\<lparr>db := s', calls := calls w @ [c]\<rparr>))"

definition st_show :: "ui_msg \<Rightarrow> 's world \<Rightarrow> 's world" where
  "st_show m w = w\<lparr>ui := ui w @ [m]\<rparr>"

section \<open>Helper functions\<close>

definition get_table_data :: "'s client \<Rightarrow> string \<Rightarrow> nat \<Rightarrow> 's world \<Rightarrow> dataframe \<times> 's world" where
  "get_table_data cl table_name limit w =
     (case execute cl (Select table_name limit) w of
        (Inr data, w') \<Rightarrow> (if data \<noteq> [] then DataFrame data else [], w')
      | (Inl e, w') \<Rightarrow> ([], st_show (Text Error (''Error fetching data: '' @ e)) w'))"

definition get_table_columns :: "'s client \<Rightarrow> string \<Rightarrow> 's world \<Rightarrow> string list \<times> 's world" where
  "get_table_columns cl table_name w =
     (case execute cl (Select table_name 1) w of
        (Inr data, w') \<Rightarrow> (case data of r # _ \<Rightarrow> (map fst r, w') | [] \<Rightarrow> ([], w'))
      | (Inl e, w') \<Rightarrow> ([], st_show (Text Error (''Error fetching columns: '' @ e)) w'))"

definition insert_record :: "'s client \<Rightarrow> string \<Rightarrow> py_dict \<Rightarrow> 's world \<Rightarrow> (bool \<times> string) \<times> 's world" where
  "insert_record cl table_name data w =
     (case execute cl (Insert table_name (One data)) w of
        (Inr response, w') \<Rightarrow> ((True, ''Record inserted successfully!''), w')
      | (Inl e, w') \<Rightarrow> ((False, ''Error inserting record: '' @ e), w'))"

definition bulk_insert_records :: "'s client \<Rightarrow> string \<Rightarrow> dataframe \<Rightarrow> 's world \<Rightarrow> (bool \<times> string) \<times> 's world" where
  "bulk_insert_records cl table_name dataframe w =
     (let records = to_dict_records dataframe
      in case execute cl (Insert table_name (Many records)) w of
           (Inr response, w') \<Rightarrow>
             ((True, ''Successfully inserted '' @ str_nat (length records) @ '' records!''), w')
         | (Inl e, w') \<Rightarrow> ((False, ''Error in bulk insert: '' @ e), w'))"

definition update_record :: "'s client \<Rightarrow> string \<Rightarrow> scalar \<Rightarrow> string \<Rightarrow> py_dict \<Rightarrow> 's world \<Rightarrow> (bool \<times> string) \<times> 's world" where
  "update_record cl table_name record_id id_column data w =
     (case execute cl (Update table_name data id_column record_id) w of
        (Inr response, w') \<Rightarrow> ((True, ''Record updated successfully!''), w')
      | (Inl e, w') \<Rightarrow> ((False, ''Error updating record: '' @ e), w'))"

definition delete_record :: "'s client \<Rightarrow> string \<Rightarrow> scalar \<Rightarrow> string \<Rightarrow> 's world \<Rightarrow> (bool \<times> string) \<times> 's world" where
  "delete_record cl table_name record_id id_column w =
     (case execute cl (Delete table_name id_column record_id) w of
        (Inr response, w') \<Rightarrow> ((True, ''Record deleted successfully!''), w')
      | (Inl e, w') \<Rightarrow> ((False, ''Error deleting record: '' @ e), w'))"

section \<open>Widgets\<close>

text \<open>
  Streamlit is outside the program; what the operator does with a widget is an input of the
  model. \<open>st.selectbox\<close> returns one of its options, the first one unless the operator
  has picked another. \<open>st.number_input\<close> returns a number between \<open>min_value\<close> and
  \<open>max_value\<close>: the number entered, or the initial \<open>value\<close> when the entry is outside
  the bounds and so not accepted. It raises when the initial \<open>value\<close> itself is outside the
  bounds (the text of the exception is abridged). \<open>if v\<close> on a value is Python's truth test.
\<close>

definition selectbox :: "string list \<Rightarrow> string \<Rightarrow> string" where
  "selectbox options picked =
     (case options of [] \<Rightarrow> [] | d # _ \<Rightarrow> if picked \<in> set options then picked else d)"

definition number_input :: "nat \<Rightarrow> nat \<Rightarrow> nat \<Rightarrow> nat \<Rightarrow> string + nat" where
  "number_input min_value max_value val entered =
     (if val < min_value \<or> max_value < val then Inl ''number_input: value out of bounds''
      else if entered < min_value \<or> max_value < entered then Inr val
      else Inr entered)"

fun truthy :: "scalar \<Rightarrow> bool" where
  "truthy Null = False"
| "truthy (Str s) = (s \<noteq> [])"
| "truthy (Number n) = (n \<noteq> 0)"
| "truthy (Boolean b) = b"

section \<open>The Add Record and Update Record forms\<close>

text \<open>
  \<open>entered col\<close> is the text of the input field labelled \<open>col\<close> when the form is
  submitted. The Add form (lines 193 to 225 of \<open>main\<close>) and the Update form (lines 261 to
  295) first collect the fields in a dictionary (\<open>record_data\<close>, \<open>update_data\<close>) and then
  filter it (\<open>clean_data\<close>). \<open>cols\<close> are the columns the tab has fetched before it draws the
  form.
\<close>

definition add_record_data :: "string list \<Rightarrow> (string \<Rightarrow> string) \<Rightarrow> py_dict" where
  "add_record_data cols entered =
     fold (\<lambda>col record_data.
             if lower col \<in> set [''id'', ''created_at'', ''updated_at''] then record_data
             else AList.update col (Str (entered col)) record_data) cols []"

definition add_clean_data :: "py_dict \<Rightarrow> py_dict" where
  "add_clean_data record_data =
     filter (\<lambda>(k, v). truthy v \<and> lower k \<notin> set [''id'', ''created_at'', ''updated_at''])
       record_data"

definition add_record_form :: "'s client \<Rightarrow> string \<Rightarrow> string list \<Rightarrow> (string \<Rightarrow> string) \<Rightarrow> bool \<Rightarrow> 's world \<Rightarrow> 's world" where
  "add_record_form cl table_name cols entered submitted w =
     (let record_data = add_record_data cols entered
      in if submitted then
           (let clean_data = add_clean_data record_data
            in if clean_data \<noteq> [] then
                 (case insert_record cl table_name clean_data w of
                    ((success, message), w') \<Rightarrow>
                      if success then st_show (Text Success message) w'
                      else st_show (Text Error message) w')
               else st_show (Text Warning ''Please fill in at least one field'') w)
         else w)"

definition update_data_of :: "string list \<Rightarrow> string \<Rightarrow> (string \<Rightarrow> string) \<Rightarrow> py_dict" where
  "update_data_of cols id_column entered =
     fold (\<lambda>col update_data.
             if col = id_column then update_data
             else AList.update col (Str (entered col)) update_data) cols []"

definition update_clean_data :: "string \<Rightarrow> py_dict \<Rightarrow> py_dict" where
  "update_clean_data id_column update_data =
     filter (\<lambda>(k, v). truthy v \<and> k \<noteq> id_column) update_data"

definition update_record_form :: "'s client \<Rightarrow> string \<Rightarrow> string list \<Rightarrow> string \<Rightarrow> scalar \<Rightarrow> (string \<Rightarrow> string) \<Rightarrow> bool \<Rightarrow> 's world \<Rightarrow> 's world" where
  "update_record_form cl table_name cols id_column record_id entered submitted w =
     (let update_data = update_data_of cols id_column entered
      in if submitted then
           (let clean_data = update_clean_data id_column update_data
            in if clean_data \<noteq> [] then
                 (case update_record cl table_name record_id id_column clean_data w of
                    ((success, message), w') \<Rightarrow>
                      if success then st_show (Text Success message) w'
                      else st_show (Text Error message) w')
               else st_show (Text Warning ''No changes detected'') w)
         else w)"

section \<open>The Bulk Upload tab\<close>

text \<open>
  The tab rebinds \<open>df_upload\<close> to frames that pandas creates and assigns columns of
  \<open>mapped_df\<close> in place, so its frames are objects in \<open>frames\<close> and a variable holds
  the position of its frame. \<open>new_frame\<close> is what a pandas call that returns a new frame does;
  \<open>setitem\<close> is \<open>df[c] = s\<close>, which changes the frame at its position. Every series assigned
  here comes from the one uploaded frame, so the index alignment of pandas changes nothing.
\<close>

definition new_frame :: "dataframe \<Rightarrow> 's world \<Rightarrow> nat \<times> 's world" where
  "new_frame df w = (length (frames w), w\<lparr>frames := frames w @ [df]\<rparr>)"

definition setitem :: "nat \<Rightarrow> string \<Rightarrow> series \<Rightarrow> 's world \<Rightarrow> 's world" where
  "setitem r c s w = w\<lparr>frames := (frames w)[r := AList.update c s (frames w ! r)]\<rparr>"

text \<open>Lines 380 to 388: the columns of the table and of the file, and those they share, are
  shown.\<close>

definition show_column_matching :: "string list \<Rightarrow> string list \<Rightarrow> 's world \<Rightarrow> 's world" where
  "show_column_matching table_columns file_columns w =
     (let w1 = st_show (Listing Info ''Table columns: '' table_columns) w;
          w2 = st_show (Listing Info ''File columns: '' file_columns) w1;
          matching_cols = set file_columns \<inter> set table_columns
      in if matching_cols \<noteq> {} then st_show (Listing_set Success ''Matching columns: '' matching_cols) w2
         else w2)"

text \<open>Lines 393 to 414: one select box for each file column, and the mapping applied when
  the button is pressed. The result is the frame \<open>df_upload\<close> is bound to afterwards.\<close>

definition map_columns_manually :: "nat \<Rightarrow> string list \<Rightarrow> string list \<Rightarrow> (string \<Rightarrow> string) \<Rightarrow> bool \<Rightarrow> 's world \<Rightarrow> nat \<times> 's world" where
  "map_columns_manually df_upload file_columns table_columns picked apply_pressed w =
     (let column_mapping =
            fold (\<lambda>file_col m. AList.update file_col (selectbox (''Skip'' # table_columns) (picked file_col)) m)
              file_columns []
      in if apply_pressed then
           (case new_frame [] w of
              (mapped_df, w1) \<Rightarrow>
                (mapped_df,
                 st_show (Text Success ''Column mapping applied!'')
                   (fold (\<lambda>(file_col, table_col) w'.
                            if table_col \<noteq> ''Skip''
                            then setitem mapped_df table_col (getitem (frames w' ! df_upload) file_col) w'
                            else w')
                      column_mapping w1)))
         else (df_upload, w))"

text \<open>Lines 421 to 424: the check box that removes the rows with empty values.\<close>

definition remove_empty_rows :: "nat \<Rightarrow> bool \<Rightarrow> 's world \<Rightarrow> nat \<times> 's world" where
  "remove_empty_rows df_upload remove_empty w =
     (if remove_empty then
        (case new_frame (dropna (frames w ! df_upload)) w of
           (cleaned, w1) \<Rightarrow>
             (cleaned,
              st_show (Text Info (''Rows after cleaning: '' @ str_nat (len_df (frames w1 ! cleaned)))) w1))
      else (df_upload, w))"

text \<open>Lines 427 to 434: the row limit, between 1 and the number of rows, and \<open>head\<close>.\<close>

definition limit_rows :: "nat \<Rightarrow> nat \<Rightarrow> 's world \<Rightarrow> (string + nat) \<times> 's world" where
  "limit_rows df_upload entered w =
     (case number_input 1 (len_df (frames w ! df_upload)) (len_df (frames w ! df_upload)) entered of
        Inl e \<Rightarrow> (Inl e, w)
      | Inr upload_limit \<Rightarrow>
          (case new_frame (head (frames w ! df_upload) upload_limit) w of
             (limited, w1) \<Rightarrow> (Inr limited, w1)))"

text \<open>Lines 421 to 434 together: the cleaning options applied to the frame at \<open>df_upload\<close>.\<close>

definition clean_rows :: "nat \<Rightarrow> bool \<Rightarrow> nat \<Rightarrow> 's world \<Rightarrow> (string + nat) \<times> 's world" where
  "clean_rows df_upload remove_empty entered w =
     (case remove_empty_rows df_upload remove_empty w of
        (cleaned, w1) \<Rightarrow> limit_rows cleaned entered w1)"

text \<open>What the operator has set on the tab when the page runs.\<close>

record upload_inputs =
  map_columns :: bool
  picked :: "string \<Rightarrow> string"
  apply_mapping :: bool
  remove_empty :: bool
  upload_limit :: nat
  upload :: bool

text \<open>
  Lines 361 to 458 for an uploaded file: \<open>loaded\<close> is what \<open>pd.read_csv\<close> or
  \<open>pd.read_excel\<close> made of it, an exception or a frame. Any exception raised inside the
  block ends it with the message of the handler at line 457.
\<close>

definition bulk_upload_tab :: "'s client \<Rightarrow> string \<Rightarrow> string + dataframe \<Rightarrow> upload_inputs \<Rightarrow> 's world \<Rightarrow> 's world" where
  "bulk_upload_tab cl table_name loaded inp w =
     (case loaded of
        Inl e \<Rightarrow> st_show (Text Error (''Error reading file: '' @ e)) w
      | Inr file \<Rightarrow>
          (case new_frame file w of
             (df_upload, w1) \<Rightarrow>
               (case get_table_columns cl table_name
                       (st_show (Text Success (''File loaded successfully! Found '' @ str_nat (len_df file) @ '' rows'')) w1) of
                  (table_columns, w2) \<Rightarrow>
                    if table_columns \<noteq> [] then
                      (let file_columns = columns (frames w2 ! df_upload);
                           w3 = show_column_matching table_columns file_columns w2
                       in case (if map_columns inp
                                then map_columns_manually df_upload file_columns table_columns
                                       (picked inp) (apply_mapping inp) w3
                                else (df_upload, w3)) of
                            (df_mapped, w4) \<Rightarrow>
                              (case clean_rows df_mapped (remove_empty inp) (upload_limit inp) w4 of
                                 (Inl e, w5) \<Rightarrow> st_show (Text Error (''Error reading file: '' @ e)) w5
                               | (Inr df_final, w5) \<Rightarrow>
                                   if upload inp then
                                     (case bulk_insert_records cl table_name (frames w5 ! df_final) w5 of
                                        ((success, message), w6) \<Rightarrow>
                                          if success then st_show (Text Success message) w6
                                          else st_show (Text Error message) w6)
                                   else w5))
                    else st_show (Text Error ''Could not retrieve table columns'') w2)))"

section \<open>A store in memory\<close>

text \<open>
  A client to run the program on: one table, \<open>items\<close>, held as the list of its rows; a
  query on any other table raises. Its \<open>update\<close> and \<open>delete\<close> answer with the rows
  they matched, as the Supabase client does.
\<close>

definition memory_store :: "(py_dict list) client" where
  "memory_store c rows =
     (case c of
        Select t n \<Rightarrow>
          if t = ''items'' then (Inr (take n rows), rows) else (Inl (''no table '' @ t), rows)
      | Insert t p \<Rightarrow>
          if t = ''items''
          then (case p of One r \<Rightarrow> (Inr [r], rows @ [r]) | Many rs \<Rightarrow> (Inr rs, rows @ rs))
          else (Inl (''no table '' @ t), rows)
      | Update t patch idc idv \<Rightarrow>
          if t = ''items''
          then (Inr (map (\<lambda>r. fold (\<lambda>(k, v). AList.update k v) patch r)
                      (filter (\<lambda>r. map_of r idc = Some idv) rows)),
                map (\<lambda>r. if map_of r idc = Some idv then fold (\<lambda>(k, v). AList.update k v) patch r else r)
                  rows)
          else (Inl (''no table '' @ t), rows)
      | Delete t idc idv \<Rightarrow>
          if t = ''items''
          then (Inr (filter (\<lambda>r. map_of r idc = Some idv) rows),
                filter (\<lambda>r. map_of r idc \<noteq> Some idv) rows)
          else (Inl (''no table '' @ t), rows))"

definition start :: "py_dict list \<Rightarrow> (py_dict list) world" where
  "start rows = \<lparr>db = rows, calls = [], ui = [], frames = []\<rparr>"


text \<open>An upload to run the tab on: a file of ten rows with the columns \<open>name\<close>, \<open>email\<close>
  and \<open>extra\<close>, and the settings of an operator who maps nothing, removes nothing, keeps the
  limit at ten rows and presses the upload button.\<close>

definition ten_rows :: dataframe where
  "ten_rows = [(''name'', replicate 10 (Str ''ann'')),
               (''email'', replicate 10 (Str ''ann@example.org'')),
               (''extra'', replicate 10 (Number 1))]"

definition plain_upload :: upload_inputs where
  "plain_upload = \<lparr>map_columns = False, picked = (\<lambda>c. ''Skip''), apply_mapping = False,
                    remove_empty = False, upload_limit = 10, upload = True\<rparr>"

section \<open>Executing a call\<close>

lemma fst_execute: "fst (execute cl c w) = fst (cl c (db w))"
  by (simp add: execute_def split: prod.splits)

lemma calls_execute: "calls (snd (execute cl c w)) = calls w @ [c]"
  by (simp add: execute_def split: prod.splits)

lemma ui_execute: "ui (snd (execute cl c w)) = ui w"
  by (simp add: execute_def split: prod.splits)

lemma frames_execute: "frames (snd (execute cl c w)) = frames w"
  by (simp add: execute_def split: prod.splits)

lemma length_to_dict_records: "length (to_dict_records df) = len_df df"
  by (simp add: to_dict_records_def)

lemma execute_cases:
  obtains (raised) e w' where "execute cl c w = (Inl e, w')" "fst (cl c (db w)) = Inl e"
      "calls w' = calls w @ [c]" "ui w' = ui w" "frames w' = frames w"
  | (returned) d w' where "execute cl c w = (Inr d, w')" "fst (cl c (db w)) = Inr d"
      "calls w' = calls w @ [c]" "ui w' = ui w" "frames w' = frames w"
proof (cases "execute cl c w")
  case (Pair r w')
  have "fst (cl c (db w)) = r" "calls w' = calls w @ [c]" "ui w' = ui w" "frames w' = frames w"
    using Pair fst_execute [of cl c w] calls_execute [of cl c w] ui_execute [of cl c w]
      frames_execute [of cl c w] by simp_all
  then show thesis using Pair raised returned by (cases r) auto
qed

section \<open>Numbers in messages\<close>

lemma digit_char_inject: "a < 10 \<Longrightarrow> b < 10 \<Longrightarrow> digit_char a = digit_char b \<Longrightarrow> a = b"
proof -
  assume a: "a < 10" and b: "b < 10" and e: "digit_char a = digit_char b"
  have d: "distinct ''0123456789''" by simp
  have l: "length ''0123456789'' = 10" by simp
  from e have "''0123456789'' ! a = ''0123456789'' ! b" by (simp only: digit_char_def)
  with d a b l show "a = b" by (simp only: nth_eq_iff_index_eq)
qed

lemma str_nat_nonempty: "str_nat n \<noteq> []"
  by (subst str_nat.simps) simp

lemma str_nat_inject: "str_nat m = str_nat n \<Longrightarrow> m = n"
proof (induction m arbitrary: n rule: str_nat.induct)
  case (1 m)
  show ?case
  proof (cases "m < 10")
    case True
    then have sm: "str_nat m = [digit_char m]" by (subst str_nat.simps) simp
    show ?thesis
    proof (cases "n < 10")
      case n: True
      then have "str_nat n = [digit_char n]" by (subst str_nat.simps) simp
      with sm "1.prems" True n show ?thesis by (simp add: digit_char_inject)
    next
      case n: False
      then have "str_nat n = str_nat (n div 10) @ [digit_char (n mod 10)]"
        by (subst str_nat.simps) simp
      with sm "1.prems" str_nat_nonempty [of "n div 10"] show ?thesis by simp
    qed
  next
    case False
    then have sm: "str_nat m = str_nat (m div 10) @ [digit_char (m mod 10)]"
      by (subst str_nat.simps) simp
    show ?thesis
    proof (cases "n < 10")
      case n: True
      then have "str_nat n = [digit_char n]" by (subst str_nat.simps) simp
      with sm "1.prems" str_nat_nonempty [of "m div 10"] show ?thesis by simp
    next
      case n: False
      then have "str_nat n = str_nat (n div 10) @ [digit_char (n mod 10)]"
        by (subst str_nat.simps) simp
      with sm "1.prems" have e: "str_nat (m div 10) = str_nat (n div 10)"
        and d: "digit_char (m mod 10) = digit_char (n mod 10)" by simp_all
      from "1.IH" [OF False e] have "m div 10 = n div 10" .
      moreover from d have "m mod 10 = n mod 10" by (simp add: digit_char_inject)
      ultimately show ?thesis by (metis div_mult_mod_eq)
    qed
  qed
qed

section \<open>The bulk insert\<close>

text \<open>
  Claim C2. For every frame \<open>r\<close> and table \<open>t\<close>, \<open>bulk_insert_records\<close> executes one
  call, the insert of all the records of \<open>r\<close> as one batch, and when the client does not raise
  it returns success with a message that reports \<open>len(r)\<close>, whatever the client answered;
  no other call is made to confirm the count. The message determines the count, since \<open>str\<close>
  is injective (\<open>str_nat_inject\<close>).
\<close>

theorem bulk_insert_reports_input_length:
  "calls (snd (bulk_insert_records cl t r w)) = calls w @ [Insert t (Many (to_dict_records r))]
   \<and> length (to_dict_records r) = len_df r
   \<and> (fst (cl (Insert t (Many (to_dict_records r))) (db w)) = Inr response \<longrightarrow>
        fst (bulk_insert_records cl t r w)
          = (True, ''Successfully inserted '' @ str_nat (len_df r) @ '' records!''))"
proof (cases rule: execute_cases [of cl "Insert t (Many (to_dict_records r))" w])
  case (raised e w')
  then show ?thesis
    by (simp add: bulk_insert_records_def Let_def length_to_dict_records)
next
  case (returned d w')
  then show ?thesis
    by (simp add: bulk_insert_records_def Let_def length_to_dict_records)
qed

theorem bulk_insert_reports_input_length_witness:
  "fst (bulk_insert_records memory_store ''items''
          [(''name'', [Str ''a'', Str ''b'']), (''email'', [Str ''x'', Null])] (start []))
     = (True, ''Successfully inserted 2 records!'')
   \<and> calls (snd (bulk_insert_records memory_store ''items''
          [(''name'', [Str ''a'', Str ''b'']), (''email'', [Str ''x'', Null])] (start [])))
     = [Insert ''items'' (Many [[(''name'', Str ''a''), (''email'', Str ''x'')],
                                [(''name'', Str ''b''), (''email'', Null)]])]"
  using bulk_insert_reports_input_length [of memory_store "''items''"
          "[(''name'', [Str ''a'', Str ''b'']), (''email'', [Str ''x'', Null])]" "start []"
          "to_dict_records [(''name'', [Str ''a'', Str ''b'']), (''email'', [Str ''x'', Null])]"]
  by (simp add: memory_store_def start_def to_dict_records_def row_at_def len_df_def
        str_nat.simps digit_char_def upt_rec)

text \<open>
  Claim C6. When the client raises on the insert, \<open>bulk_insert_records\<close> returns failure with
  the text of the exception, unchanged, behind the prefix \<open>Error in bulk insert:\<close>; the insert
  is the only call executed (no retry, no smaller batch), and no row is reported inserted.
\<close>

theorem bulk_insert_failure_verbatim:
  assumes "fst (cl (Insert t (Many (to_dict_records r))) (db w)) = Inl e"
  shows "fst (bulk_insert_records cl t r w) = (False, ''Error in bulk insert: '' @ e)
         \<and> calls (snd (bulk_insert_records cl t r w)) = calls w @ [Insert t (Many (to_dict_records r))]"
proof (cases rule: execute_cases [of cl "Insert t (Many (to_dict_records r))" w])
  case (raised e' w')
  with assms show ?thesis by (simp add: bulk_insert_records_def Let_def)
next
  case (returned d w')
  with assms show ?thesis by simp
qed

theorem bulk_insert_failure_verbatim_witness:
  "fst (bulk_insert_records memory_store ''nosuch''
          [(''name'', [Str ''a'', Str ''b''])] (start []))
     = (False, ''Error in bulk insert: no table nosuch'')
   \<and> calls (snd (bulk_insert_records memory_store ''nosuch'' [(''name'', [Str ''a'', Str ''b''])] (start [])))
     = [Insert ''nosuch'' (Many [[(''name'', Str ''a'')], [(''name'', Str ''b'')]])]
   \<and> db (snd (bulk_insert_records memory_store ''nosuch'' [(''name'', [Str ''a'', Str ''b''])] (start []))) = []"
  using bulk_insert_failure_verbatim [of memory_store "''nosuch''"
          "[(''name'', [Str ''a'', Str ''b''])]" "start []" "''no table nosuch''"]
  by (simp add: memory_store_def start_def to_dict_records_def row_at_def len_df_def upt_rec
        bulk_insert_records_def execute_def)

section \<open>Update and delete\<close>

text \<open>
  Claim C5. When the client does not raise, \<open>update_record\<close> and \<open>delete_record\<close> return
  success whatever the client answered, also when no row matched \<open>id_column = record_id\<close>:
  the answer is not looked at.
\<close>

theorem update_delete_success_without_match:
  "(fst (cl (Update t data idc rid) (db w)) = Inr response \<longrightarrow>
      fst (update_record cl t rid idc data w) = (True, ''Record updated successfully!''))
   \<and> (fst (cl (Delete t idc rid) (db w)) = Inr response' \<longrightarrow>
      fst (delete_record cl t rid idc w) = (True, ''Record deleted successfully!''))"
proof (intro conjI impI)
  assume a: "fst (cl (Update t data idc rid) (db w)) = Inr response"
  show "fst (update_record cl t rid idc data w) = (True, ''Record updated successfully!'')"
  proof (cases rule: execute_cases [of cl "Update t data idc rid" w])
    case (raised e w')
    with a show ?thesis by simp
  next
    case (returned d w')
    then show ?thesis by (simp add: update_record_def)
  qed
next
  assume a: "fst (cl (Delete t idc rid) (db w)) = Inr response'"
  show "fst (delete_record cl t rid idc w) = (True, ''Record deleted successfully!'')"
  proof (cases rule: execute_cases [of cl "Delete t idc rid" w])
    case (raised e w')
    with a show ?thesis by simp
  next
    case (returned d w')
    then show ?thesis by (simp add: delete_record_def)
  qed
qed

theorem update_delete_success_without_match_witness:
  "fst (memory_store (Update ''items'' [(''name'', Str ''z'')] ''id'' (Number 7)) [[(''id'', Number 1), (''name'', Str ''a'')]])
     = Inr []
   \<and> fst (update_record memory_store ''items'' (Number 7) ''id'' [(''name'', Str ''z'')]
            (start [[(''id'', Number 1), (''name'', Str ''a'')]]))
     = (True, ''Record updated successfully!'')
   \<and> fst (memory_store (Delete ''items'' ''id'' (Number 7)) [[(''id'', Number 1), (''name'', Str ''a'')]])
     = Inr []
   \<and> fst (delete_record memory_store ''items'' (Number 7) ''id''
            (start [[(''id'', Number 1), (''name'', Str ''a'')]]))
     = (True, ''Record deleted successfully!'')"
  using update_delete_success_without_match [of memory_store "''items''" "[(''name'', Str ''z'')]"
          "''id''" "Number 7" "start [[(''id'', Number 1), (''name'', Str ''a'')]]" "[]" "[]"]
  by (simp add: memory_store_def start_def)

section \<open>Fetching a table\<close>

text \<open>
  Claim C3, as the code has it. A fetch that succeeds with no rows and a fetch that fails
  both return the empty frame; the failing one has shown an error message before. The two
  outcomes differ by that message only, not by what \<open>get_table_data\<close> returns.
\<close>

theorem fetch_empty_and_failure_differ_by_message:
  "(fst (cl (Select t n) (db w)) = Inr [] \<longrightarrow>
      fst (get_table_data cl t n w) = [] \<and> ui (snd (get_table_data cl t n w)) = ui w)
   \<and> (fst (cl (Select t n) (db w)) = Inl e \<longrightarrow>
      fst (get_table_data cl t n w) = []
      \<and> ui (snd (get_table_data cl t n w)) = ui w @ [Text Error (''Error fetching data: '' @ e)])"
proof (cases rule: execute_cases [of cl "Select t n" w])
  case (raised e' w')
  then show ?thesis by (simp add: get_table_data_def st_show_def)
next
  case (returned d w')
  then show ?thesis by (simp add: get_table_data_def)
qed

theorem fetch_empty_and_failure_differ_by_message_witness:
  "fst (get_table_data memory_store ''items'' 100 (start [])) = []
   \<and> ui (snd (get_table_data memory_store ''items'' 100 (start []))) = []
   \<and> fst (get_table_data memory_store ''nosuch'' 100 (start [])) = []
   \<and> ui (snd (get_table_data memory_store ''nosuch'' 100 (start [])))
       = [Text Error ''Error fetching data: no table nosuch'']"
  using fetch_empty_and_failure_differ_by_message [of memory_store "''items''" 100 "start []" "''no table items''"]
    fetch_empty_and_failure_differ_by_message [of memory_store "''nosuch''" 100 "start []" "''no table nosuch''"]
  by (simp add: memory_store_def start_def)

text \<open>The claim as stated asks for results that can be told apart. On the store in memory the
  fetch of the empty table \<open>items\<close> succeeds and the fetch of a table that does not exist
  raises, and \<open>get_table_data\<close> returns the same frame for both.\<close>

theorem fetch_empty_same_as_failure_counterexample:
  "fst (memory_store (Select ''items'' 100) []) = Inr []
   \<and> fst (memory_store (Select ''nosuch'' 100) []) = Inl ''no table nosuch''
   \<and> fst (get_table_data memory_store ''items'' 100 (start []))
       = fst (get_table_data memory_store ''nosuch'' 100 (start []))"
  by (simp add: memory_store_def start_def get_table_data_def execute_def)

section \<open>The payload of the forms\<close>

lemma set_update_subset: "set (AList.update k v al) \<subseteq> insert (k, v) (set al)"
  by (induction al) auto

lemma collected_fields:
  "(k, v) \<in> set (fold (\<lambda>col d. if skip col then d else AList.update col (f col) d) cols acc)
   \<Longrightarrow> (k, v) \<in> set acc \<or> (k \<in> set cols \<and> \<not> skip k \<and> v = f k)"
proof (induction cols arbitrary: acc)
  case Nil
  then show ?case by simp
next
  case (Cons c cols)
  show ?case
  proof (cases "skip c")
    case True
    with Cons show ?thesis by auto
  next
    case False
    with Cons.prems have "(k, v) \<in> set (fold (\<lambda>col d. if skip col then d else AList.update col (f col) d) cols (AList.update c (f c) acc))"
      by simp
    from Cons.IH [OF this] show ?thesis
      using set_update_subset [of c "f c" acc] False by auto
  qed
qed

lemma calls_st_show: "calls (st_show m w) = calls w"
  by (simp add: st_show_def)

lemma calls_insert_record: "calls (snd (insert_record cl t d w)) = calls w @ [Insert t (One d)]"
  by (cases rule: execute_cases [of cl "Insert t (One d)" w]) (simp_all add: insert_record_def)

lemma calls_update_record: "calls (snd (update_record cl t rid idc d w)) = calls w @ [Update t d idc rid]"
  by (cases rule: execute_cases [of cl "Update t d idc rid" w]) (simp_all add: update_record_def)

lemma calls_add_record_form:
  "calls (add_record_form cl t cols entered submitted w) =
     (if submitted \<and> add_clean_data (add_record_data cols entered) \<noteq> []
      then calls w @ [Insert t (One (add_clean_data (add_record_data cols entered)))] else calls w)"
  using calls_insert_record [of cl t "add_clean_data (add_record_data cols entered)" w]
  by (auto simp: add_record_form_def Let_def calls_st_show split: prod.splits)

lemma calls_update_record_form:
  "calls (update_record_form cl t cols idc rid entered submitted w) =
     (if submitted \<and> update_clean_data idc (update_data_of cols idc entered) \<noteq> []
      then calls w @ [Update t (update_clean_data idc (update_data_of cols idc entered)) idc rid] else calls w)"
  using calls_update_record [of cl t rid idc "update_clean_data idc (update_data_of cols idc entered)" w]
  by (auto simp: update_record_form_def Let_def calls_st_show split: prod.splits)

lemma add_clean_data_fields:
  assumes "(k, v) \<in> set (add_clean_data (add_record_data cols entered))"
  shows "k \<in> set cols \<and> v = Str (entered k) \<and> entered k \<noteq> []
         \<and> lower k \<notin> {''id'', ''created_at'', ''updated_at''}"
proof -
  from assms have t: "truthy v" "lower k \<notin> set [''id'', ''created_at'', ''updated_at'']"
    and m: "(k, v) \<in> set (add_record_data cols entered)"
    by (auto simp: add_clean_data_def)
  from m have "k \<in> set cols \<and> v = Str (entered k)"
    unfolding add_record_data_def
    using collected_fields [of k v "\<lambda>c. lower c \<in> set [''id'', ''created_at'', ''updated_at'']" "\<lambda>c. Str (entered c)" cols "[]"]
    by simp
  with t show ?thesis by auto
qed

lemma update_clean_data_fields:
  assumes "(k, v) \<in> set (update_clean_data idc (update_data_of cols idc entered))"
  shows "k \<in> set cols \<and> v = Str (entered k) \<and> entered k \<noteq> [] \<and> k \<noteq> idc"
proof -
  from assms have t: "truthy v" "k \<noteq> idc"
    and m: "(k, v) \<in> set (update_data_of cols idc entered)"
    by (auto simp: update_clean_data_def)
  from m have "k \<in> set cols \<and> v = Str (entered k)"
    unfolding update_data_of_def
    using collected_fields [of k v "\<lambda>c. c = idc" "\<lambda>c. Str (entered c)" cols "[]"]
    by simp
  with t show ?thesis by auto
qed

text \<open>
  Claim C9. On submission the Add form sends \<open>clean_data\<close> in one insert and the Update form
  sends it in one update, and only when it is not empty. Every field of \<open>clean_data\<close> is a
  column of the form with the text entered for it, which is not empty; its name is not
  \<open>id\<close>, \<open>created_at\<close> or \<open>updated_at\<close> in any letter case (Add), and is not the chosen id
  column (Update). When every column is left empty or is protected, no call is executed.
\<close>

theorem form_payloads_filtered:
  "calls (add_record_form cl t cols entered True w)
     = (if add_clean_data (add_record_data cols entered) \<noteq> []
        then calls w @ [Insert t (One (add_clean_data (add_record_data cols entered)))]
        else calls w)
   \<and> (\<forall>(k, v) \<in> set (add_clean_data (add_record_data cols entered)).
        k \<in> set cols \<and> v = Str (entered k) \<and> entered k \<noteq> []
        \<and> lower k \<notin> {''id'', ''created_at'', ''updated_at''})
   \<and> ((\<forall>c \<in> set cols. entered c = [] \<or> lower c \<in> {''id'', ''created_at'', ''updated_at''})
        \<longrightarrow> calls (add_record_form cl t cols entered True w) = calls w)
   \<and> calls (update_record_form cl t cols idc rid entered True w)
     = (if update_clean_data idc (update_data_of cols idc entered) \<noteq> []
        then calls w @ [Update t (update_clean_data idc (update_data_of cols idc entered)) idc rid]
        else calls w)
   \<and> (\<forall>(k, v) \<in> set (update_clean_data idc (update_data_of cols idc entered)).
        k \<in> set cols \<and> v = Str (entered k) \<and> entered k \<noteq> [] \<and> k \<noteq> idc)
   \<and> ((\<forall>c \<in> set cols. entered c = [] \<or> c = idc)
        \<longrightarrow> calls (update_record_form cl t cols idc rid entered True w) = calls w)"
proof (intro conjI)
  show "calls (add_record_form cl t cols entered True w)
     = (if add_clean_data (add_record_data cols entered) \<noteq> []
        then calls w @ [Insert t (One (add_clean_data (add_record_data cols entered)))]
        else calls w)"
    by (simp add: calls_add_record_form)
  show a: "\<forall>(k, v) \<in> set (add_clean_data (add_record_data cols entered)).
        k \<in> set cols \<and> v = Str (entered k) \<and> entered k \<noteq> []
        \<and> lower k \<notin> {''id'', ''created_at'', ''updated_at''}"
    using add_clean_data_fields by blast
  show "(\<forall>c \<in> set cols. entered c = [] \<or> lower c \<in> {''id'', ''created_at'', ''updated_at''})
        \<longrightarrow> calls (add_record_form cl t cols entered True w) = calls w"
  proof
    assume none: "\<forall>c \<in> set cols. entered c = [] \<or> lower c \<in> {''id'', ''created_at'', ''updated_at''}"
    have "add_clean_data (add_record_data cols entered) = []"
    proof (rule ccontr)
      assume "add_clean_data (add_record_data cols entered) \<noteq> []"
      then obtain k v where "(k, v) \<in> set (add_clean_data (add_record_data cols entered))"
        by (cases "add_clean_data (add_record_data cols entered)") auto
      from add_clean_data_fields [OF this] none show False by blast
    qed
    then show "calls (add_record_form cl t cols entered True w) = calls w"
      by (simp add: calls_add_record_form)
  qed
  show "calls (update_record_form cl t cols idc rid entered True w)
     = (if update_clean_data idc (update_data_of cols idc entered) \<noteq> []
        then calls w @ [Update t (update_clean_data idc (update_data_of cols idc entered)) idc rid]
        else calls w)"
    by (simp add: calls_update_record_form)
  show "\<forall>(k, v) \<in> set (update_clean_data idc (update_data_of cols idc entered)).
        k \<in> set cols \<and> v = Str (entered k) \<and> entered k \<noteq> [] \<and> k \<noteq> idc"
    using update_clean_data_fields by blast
  show "(\<forall>c \<in> set cols. entered c = [] \<or> c = idc)
        \<longrightarrow> calls (update_record_form cl t cols idc rid entered True w) = calls w"
  proof
    assume none: "\<forall>c \<in> set cols. entered c = [] \<or> c = idc"
    have "update_clean_data idc (update_data_of cols idc entered) = []"
    proof (rule ccontr)
      assume "update_clean_data idc (update_data_of cols idc entered) \<noteq> []"
      then obtain k v where "(k, v) \<in> set (update_clean_data idc (update_data_of cols idc entered))"
        by (cases "update_clean_data idc (update_data_of cols idc entered)") auto
      from update_clean_data_fields [OF this] none show False by blast
    qed
    then show "calls (update_record_form cl t cols idc rid entered True w) = calls w"
      by (simp add: calls_update_record_form)
  qed
qed

lemma lower_examples:
  "lower ''ID'' = ''id''" "lower ''name'' = ''name''" "lower ''email'' = ''email''"
  "lower ''Created_At'' = ''created_at''"
  by (simp_all add: lower_def lower_char_def)

theorem form_payloads_filtered_witness:
  "calls (add_record_form memory_store ''items'' [''ID'', ''name'', ''email'', ''Created_At'']
            (\<lambda>c. if c = ''email'' then [] else ''x'') True (start []))
     = [Insert ''items'' (One [(''name'', Str ''x'')])]
   \<and> calls (add_record_form memory_store ''items'' [''ID'', ''name'', ''email'', ''Created_At'']
            (\<lambda>c. if c = ''ID'' then ''7'' else []) True (start [])) = []
   \<and> calls (update_record_form memory_store ''items'' [''ID'', ''name'', ''email'', ''Created_At'']
            ''ID'' (Number 7) (\<lambda>c. if c = ''email'' then [] else ''x'') True (start []))
     = [Update ''items'' [(''name'', Str ''x''), (''Created_At'', Str ''x'')] ''ID'' (Number 7)]
   \<and> calls (update_record_form memory_store ''items'' [''ID'', ''name'', ''email'', ''Created_At'']
            ''ID'' (Number 7) (\<lambda>c. if c = ''ID'' then ''7'' else []) True (start [])) = []"
proof -
  let ?cols = "[''ID'', ''name'', ''email'', ''Created_At'']"
  let ?e1 = "\<lambda>c. if c = ''email'' then [] else ''x''"
  let ?e2 = "\<lambda>c. if c = ''ID'' then ''7'' else []"
  have p1: "add_clean_data (add_record_data ?cols ?e1) = [(''name'', Str ''x'')]"
    by (simp add: add_clean_data_def add_record_data_def lower_examples)
  have p2: "update_clean_data ''ID'' (update_data_of ?cols ''ID'' ?e1)
              = [(''name'', Str ''x''), (''Created_At'', Str ''x'')]"
    by (simp add: update_clean_data_def update_data_of_def)
  have h1: "\<forall>c \<in> set ?cols. ?e2 c = [] \<or> lower c \<in> {''id'', ''created_at'', ''updated_at''}"
    by (simp add: lower_examples)
  have h2: "\<forall>c \<in> set ?cols. ?e2 c = [] \<or> c = ''ID''"
    by simp
  note filled = form_payloads_filtered [of memory_store "''items''" ?cols ?e1 "start []" "''ID''" "Number 7"]
  note blank = form_payloads_filtered [of memory_store "''items''" ?cols ?e2 "start []" "''ID''" "Number 7"]
  have c0: "calls (start []) = []" by (simp add: start_def)
  from filled have "calls (add_record_form memory_store ''items'' ?cols ?e1 True (start []))
     = [Insert ''items'' (One [(''name'', Str ''x'')])]"
    unfolding p1 c0 by simp
  moreover from blank h1 have "calls (add_record_form memory_store ''items'' ?cols ?e2 True (start [])) = []"
    unfolding c0 by blast
  moreover from filled have "calls (update_record_form memory_store ''items'' ?cols ''ID'' (Number 7) ?e1 True (start []))
     = [Update ''items'' [(''name'', Str ''x''), (''Created_At'', Str ''x'')] ''ID'' (Number 7)]"
    unfolding p2 c0 by simp
  moreover from blank h2 have "calls (update_record_form memory_store ''items'' ?cols ''ID'' (Number 7) ?e2 True (start [])) = []"
    unfolding c0 by blast
  ultimately show ?thesis by blast
qed

section \<open>Cleaning the rows\<close>

lemma has_missing_row_at: "has_missing (row_at df i) = (\<not> notna_at df i)"
  by (induction df) (auto simp: has_missing_def row_at_def notna_at_def)

lemma len_df_dropna: "len_df (dropna df) = length (filter (notna_at df) [0..<len_df df])"
  by (cases df) (auto simp: dropna_def Let_def len_df_def)

lemma row_at_dropna:
  "j < length (filter (notna_at df) [0..<len_df df]) \<Longrightarrow>
   row_at (dropna df) j = row_at df (filter (notna_at df) [0..<len_df df] ! j)"
  by (simp add: dropna_def Let_def row_at_def case_prod_beta)

lemma to_dict_records_dropna:
  "to_dict_records (dropna df) = filter (\<lambda>r. \<not> has_missing r) (to_dict_records df)"
proof -
  let ?keep = "filter (notna_at df) [0..<len_df df]"
  have "to_dict_records (dropna df) = map (row_at (dropna df)) [0..<length ?keep]"
    by (simp add: to_dict_records_def len_df_dropna)
  also have "\<dots> = map (\<lambda>j. row_at df (?keep ! j)) [0..<length ?keep]"
    using row_at_dropna by simp
  also have "\<dots> = map (row_at df) (map (\<lambda>j. ?keep ! j) [0..<length ?keep])"
    by simp
  also have "\<dots> = map (row_at df) ?keep"
    by (simp only: map_nth)
  also have "\<dots> = filter (\<lambda>r. \<not> has_missing r) (map (row_at df) [0..<len_df df])"
    by (simp add: filter_map comp_def has_missing_row_at)
  finally show ?thesis by (simp add: to_dict_records_def)
qed

lemma row_at_head: "i < n \<Longrightarrow> row_at (head df n) i = row_at df i"
  by (simp add: row_at_def head_def case_prod_beta)

lemma len_df_head: "len_df (head df n) = min (len_df df) n"
  by (cases df) (auto simp: head_def len_df_def)

lemma to_dict_records_head: "to_dict_records (head df n) = take n (to_dict_records df)"
proof -
  have "to_dict_records (head df n) = map (row_at (head df n)) [0..<min (len_df df) n]"
    by (simp add: to_dict_records_def len_df_head)
  also have "\<dots> = map (row_at df) [0..<min (len_df df) n]"
    by (simp add: row_at_head)
  also have "\<dots> = take n (map (row_at df) [0..<len_df df])"
    by (simp add: take_map min_def)
  finally show ?thesis by (simp add: to_dict_records_def)
qed

lemma remove_empty_rows_True:
  "frames (snd (remove_empty_rows df True w)) = frames w @ [dropna (frames w ! df)]"
  "fst (remove_empty_rows df True w) = length (frames w)"
  by (simp_all add: remove_empty_rows_def new_frame_def st_show_def)

text \<open>
  Claim C7. With the check box set, the frame \<open>df_upload\<close> is bound to afterwards holds
  exactly the records of the frame it was bound to that have no missing field in any of
  the columns of that frame, in their order: the records of the new frame are the old ones
  filtered. The frame at that point is the one the column mapping left.
\<close>

theorem drop_incomplete_removes_exactly:
  "to_dict_records (frames (snd (remove_empty_rows df True w)) ! fst (remove_empty_rows df True w))
     = filter (\<lambda>r. \<not> has_missing r) (to_dict_records (frames w ! df))"
  by (simp add: remove_empty_rows_True to_dict_records_dropna)

theorem drop_incomplete_removes_exactly_witness:
  "to_dict_records
     [(''name'', [Str ''a'', Str ''b'', Str ''c'', Str ''d'']),
      (''email'', [Str ''p'', Null, Str ''r'', Str ''s''])]
     = [[(''name'', Str ''a''), (''email'', Str ''p'')],
        [(''name'', Str ''b''), (''email'', Null)],
        [(''name'', Str ''c''), (''email'', Str ''r'')],
        [(''name'', Str ''d''), (''email'', Str ''s'')]]
   \<and> to_dict_records
       (frames (snd (remove_empty_rows 0 True
          ((start []) \<lparr>frames := [[(''name'', [Str ''a'', Str ''b'', Str ''c'', Str ''d'']),
                                  (''email'', [Str ''p'', Null, Str ''r'', Str ''s''])]]\<rparr>)))
        ! fst (remove_empty_rows 0 True
          ((start []) \<lparr>frames := [[(''name'', [Str ''a'', Str ''b'', Str ''c'', Str ''d'']),
                                  (''email'', [Str ''p'', Null, Str ''r'', Str ''s''])]]\<rparr>)))
     = [[(''name'', Str ''a''), (''email'', Str ''p'')],
        [(''name'', Str ''c''), (''email'', Str ''r'')],
        [(''name'', Str ''d''), (''email'', Str ''s'')]]"
proof -
  let ?f = "[(''name'', [Str ''a'', Str ''b'', Str ''c'', Str ''d'']),
      (''email'', [Str ''p'', Null, Str ''r'', Str ''s''])]"
  have r: "to_dict_records ?f
     = [[(''name'', Str ''a''), (''email'', Str ''p'')],
        [(''name'', Str ''b''), (''email'', Null)],
        [(''name'', Str ''c''), (''email'', Str ''r'')],
        [(''name'', Str ''d''), (''email'', Str ''s'')]]"
    by (simp add: to_dict_records_def row_at_def len_df_def upt_rec)
  show ?thesis
    using drop_incomplete_removes_exactly [of 0 "(start []) \<lparr>frames := [?f]\<rparr>"]
    by (simp add: r has_missing_def)
qed

lemma limit_rows_frames:
  "limit_rows d n w = (r, w') \<Longrightarrow>
     (\<exists>extra. frames w' = frames w @ extra)
     \<and> map_sum id (\<lambda>x. frames w' ! x) r
         = (case number_input 1 (len_df (frames w ! d)) (len_df (frames w ! d)) n of
              Inl e \<Rightarrow> Inl e | Inr k \<Rightarrow> Inr (head (frames w ! d) k))"
  by (auto simp: limit_rows_def new_frame_def split: sum.splits)

lemma remove_empty_rows_frames:
  "d < length (frames w) \<Longrightarrow> remove_empty_rows d re w = (d', w') \<Longrightarrow>
     (\<exists>extra. frames w' = frames w @ extra) \<and> d' < length (frames w')
     \<and> frames w' ! d' = (if re then dropna (frames w ! d) else frames w ! d)"
  by (auto simp: remove_empty_rows_def new_frame_def st_show_def split: if_splits)

lemma clean_rows_frames:
  assumes "d < length (frames w)" "clean_rows d re n w = (r, w')"
  shows "(\<exists>extra. frames w' = frames w @ extra)
     \<and> map_sum id (\<lambda>x. frames w' ! x) r
         = (let f = (if re then dropna (frames w ! d) else frames w ! d)
            in case number_input 1 (len_df f) (len_df f) n of
                 Inl e \<Rightarrow> Inl e | Inr k \<Rightarrow> Inr (head f k))"
proof -
  obtain d1 w1 where 1: "remove_empty_rows d re w = (d1, w1)" by (cases "remove_empty_rows d re w")
  with assms have 2: "limit_rows d1 n w1 = (r, w')" by (simp add: clean_rows_def)
  from remove_empty_rows_frames [OF assms(1) 1] obtain e1 where
    a: "frames w1 = frames w @ e1"
    and c: "frames w1 ! d1 = (if re then dropna (frames w ! d) else frames w ! d)" by blast
  from limit_rows_frames [OF 2] obtain e2 where
    b: "frames w' = frames w1 @ e2"
    and o: "map_sum id (\<lambda>x. frames w' ! x) r
         = (case number_input 1 (len_df (frames w1 ! d1)) (len_df (frames w1 ! d1)) n of
              Inl e \<Rightarrow> Inl e | Inr k \<Rightarrow> Inr (head (frames w1 ! d1) k))" by blast
  from a b have "frames w' = frames w @ (e1 @ e2)" by simp
  then have "\<exists>extra. frames w' = frames w @ extra" by blast
  with o show ?thesis unfolding c Let_def by blast
qed

text \<open>
  Claim C8. For every frame in the store of objects and every choice of the cleaning options,
  cleaning leaves the frame it reads as it was, and cleaning the same frame again with the
  same options gives the same output: the same frame, or the same exception.
\<close>

theorem cleaning_keeps_source_and_repeats:
  assumes "df < length (frames w)"
  shows "case clean_rows df re n w of
           (r1, w1) \<Rightarrow>
             (case clean_rows df re n w1 of
                (r2, w2) \<Rightarrow>
                  frames w1 ! df = frames w ! df \<and> frames w2 ! df = frames w ! df
                  \<and> map_sum id (\<lambda>x. frames w2 ! x) r2 = map_sum id (\<lambda>x. frames w1 ! x) r1)"
proof -
  obtain r1 w1 where 1: "clean_rows df re n w = (r1, w1)" by (cases "clean_rows df re n w")
  obtain r2 w2 where 2: "clean_rows df re n w1 = (r2, w2)" by (cases "clean_rows df re n w1")
  from clean_rows_frames [OF assms 1] obtain e1 where
    f1: "frames w1 = frames w @ e1" and o1: "map_sum id (\<lambda>x. frames w1 ! x) r1
         = (let f = (if re then dropna (frames w ! df) else frames w ! df)
            in case number_input 1 (len_df f) (len_df f) n of
                 Inl e \<Rightarrow> Inl e | Inr k \<Rightarrow> Inr (head f k))" by blast
  from f1 assms have s1: "frames w1 ! df = frames w ! df" and l1: "df < length (frames w1)"
    by (simp_all add: nth_append)
  from clean_rows_frames [OF l1 2] obtain e2 where
    f2: "frames w2 = frames w1 @ e2" and o2: "map_sum id (\<lambda>x. frames w2 ! x) r2
         = (let f = (if re then dropna (frames w1 ! df) else frames w1 ! df)
            in case number_input 1 (len_df f) (len_df f) n of
                 Inl e \<Rightarrow> Inl e | Inr k \<Rightarrow> Inr (head f k))" by blast
  from f2 l1 s1 have s2: "frames w2 ! df = frames w ! df" by (simp add: nth_append)
  from o1 o2 s1 have "map_sum id (\<lambda>x. frames w2 ! x) r2 = map_sum id (\<lambda>x. frames w1 ! x) r1" by simp
  with s1 s2 1 2 show ?thesis by simp
qed

theorem cleaning_keeps_source_and_repeats_witness:
  "(case clean_rows 0 True 2
          ((start []) \<lparr>frames := [[(''name'', [Str ''a'', Str ''b'', Str ''c'']),
                                  (''email'', [Str ''p'', Null, Str ''r''])]]\<rparr>) of
      (r1, w1) \<Rightarrow>
        (case clean_rows 0 True 2 w1 of
           (r2, w2) \<Rightarrow>
             frames w1 ! 0 = [(''name'', [Str ''a'', Str ''b'', Str ''c'']),
                              (''email'', [Str ''p'', Null, Str ''r''])]
             \<and> frames w2 ! 0 = [(''name'', [Str ''a'', Str ''b'', Str ''c'']),
                                (''email'', [Str ''p'', Null, Str ''r''])]
             \<and> map_sum id (\<lambda>x. frames w1 ! x) r1
                  = Inr [(''name'', [Str ''a'', Str ''c'']), (''email'', [Str ''p'', Str ''r''])]
             \<and> map_sum id (\<lambda>x. frames w2 ! x) r2
                  = Inr [(''name'', [Str ''a'', Str ''c'']), (''email'', [Str ''p'', Str ''r''])]))"
proof -
  let ?f = "[(''name'', [Str ''a'', Str ''b'', Str ''c'']), (''email'', [Str ''p'', Null, Str ''r''])]"
  let ?w = "(start []) \<lparr>frames := [?f]\<rparr>"
  have h: "0 < length (frames ?w)" by simp
  have d: "dropna ?f = [(''name'', [Str ''a'', Str ''c'']), (''email'', [Str ''p'', Str ''r''])]"
    by (simp add: dropna_def len_df_def notna_at_def upt_rec)
  obtain r1 w1 where 1: "clean_rows 0 True 2 ?w = (r1, w1)" by (cases "clean_rows 0 True 2 ?w")
  obtain r2 w2 where 2: "clean_rows 0 True 2 w1 = (r2, w2)" by (cases "clean_rows 0 True 2 w1")
  have o: "map_sum id (\<lambda>x. frames w1 ! x) r1
             = Inr [(''name'', [Str ''a'', Str ''c'']), (''email'', [Str ''p'', Str ''r''])]"
    using clean_rows_frames [OF h 1] by (simp add: d number_input_def len_df_def head_def)
  from cleaning_keeps_source_and_repeats [OF h, of True 2] 1 2 o
  show ?thesis by simp
qed

section \<open>The manual column mapping\<close>

lemma count_list_distinct: "distinct xs \<Longrightarrow> x \<in> set xs \<Longrightarrow> count_list xs x = 1"
  by (induction xs) auto

lemma column_mapping_distinct:
  "distinct cols \<Longrightarrow> set cols \<inter> fst ` set acc = {} \<Longrightarrow>
   fold (\<lambda>c m. AList.update c (g c) m) cols acc = acc @ map (\<lambda>c. (c, g c)) cols"
proof (induction cols arbitrary: acc)
  case Nil
  then show ?case by simp
next
  case (Cons c cols)
  have u: "AList.update c (g c) acc = acc @ [(c, g c)]"
    using Cons.prems(2) by (induction acc) auto
  have "set cols \<inter> fst ` set (acc @ [(c, g c)]) = {}"
    using Cons.prems by auto
  with Cons.IH [of "acc @ [(c, g c)]"] Cons.prems(1) u show ?case by simp
qed

text \<open>The assignments of the mapping loop change the frame at \<open>m\<close> only.\<close>

lemma mapping_loop_frames:
  "m < length (frames w) \<Longrightarrow> d \<noteq> m \<Longrightarrow> frames w ! d = src \<Longrightarrow>
   frames (fold (\<lambda>(file_col, table_col) w'.
                   if table_col \<noteq> ''Skip''
                   then setitem m table_col (getitem (frames w' ! d) file_col) w' else w') its w)
     = (frames w)[m := fold (\<lambda>(file_col, table_col) acc.
                          if table_col \<noteq> ''Skip''
                          then AList.update table_col (getitem src file_col) acc else acc)
                        its (frames w ! m)]"
proof (induction its arbitrary: w)
  case Nil
  then show ?case by simp
next
  case (Cons it its)
  obtain f t where it: "it = (f, t)" by (cases it)
  show ?case
  proof (cases "t = ''Skip''")
    case True
    with Cons it show ?thesis by simp
  next
    case False
    let ?w1 = "setitem m t (getitem (frames w ! d) f) w"
    have 1: "m < length (frames ?w1)" "frames ?w1 ! d = src"
      "frames ?w1 ! m = AList.update t (getitem src f) (frames w ! m)"
      using Cons.prems by (auto simp: setitem_def)
    have 2: "(frames ?w1)[m := x] = (frames w)[m := x]" for x
      by (simp add: setitem_def)
    from Cons.IH [OF 1(1) Cons.prems(2) 1(2)] False it show ?thesis
      by (simp add: 1(3) 2)
  qed
qed

lemma mapping_loop_rest:
  "calls (fold (\<lambda>(file_col, table_col) w'.
                   if table_col \<noteq> ''Skip''
                   then setitem m table_col (getitem (frames w' ! d) file_col) w' else w') its w) = calls w
   \<and> ui (fold (\<lambda>(file_col, table_col) w'.
                   if table_col \<noteq> ''Skip''
                   then setitem m table_col (getitem (frames w' ! d) file_col) w' else w') its w) = ui w
   \<and> db (fold (\<lambda>(file_col, table_col) w'.
                   if table_col \<noteq> ''Skip''
                   then setitem m table_col (getitem (frames w' ! d) file_col) w' else w') its w) = db w"
  by (induction its arbitrary: w) (auto simp: setitem_def)

text \<open>What the loop leaves in \<open>mapped_df\<close>, as a function of the uploaded frame.\<close>

lemma mapped_fold_map:
  "fold (\<lambda>(file_col, table_col) acc.
           if table_col \<noteq> ''Skip'' then AList.update table_col (getitem df file_col) acc else acc)
     (map (\<lambda>c. (c, g c)) cols) acc
   = fold (\<lambda>c acc. if g c \<noteq> ''Skip'' then AList.update (g c) (getitem df c) acc else acc) cols acc"
  by (induction cols arbitrary: acc) auto

lemma map_columns_manually_pressed:
  assumes "d < length (frames w)" "distinct cols"
  shows "fst (map_columns_manually d cols tcs pick True w) = length (frames w)"
    and "frames (snd (map_columns_manually d cols tcs pick True w))
           = frames w @ [fold (\<lambda>c acc. if selectbox (''Skip'' # tcs) (pick c) \<noteq> ''Skip''
                                       then AList.update (selectbox (''Skip'' # tcs) (pick c))
                                              (getitem (frames w ! d) c) acc
                                       else acc) cols []]"
    and "calls (snd (map_columns_manually d cols tcs pick True w)) = calls w"
proof -
  let ?g = "\<lambda>c. selectbox (''Skip'' # tcs) (pick c)"
  let ?w1 = "w\<lparr>frames := frames w @ [[]]\<rparr>"
  have cm: "fold (\<lambda>file_col m. AList.update file_col (?g file_col) m) cols [] = map (\<lambda>c. (c, ?g c)) cols"
    using column_mapping_distinct [of cols "[]" ?g] assms(2) by simp
  have m: "length (frames w) < length (frames ?w1)" "d \<noteq> length (frames w)"
    using assms(1) by simp_all
  have fr: "frames ?w1 ! d = frames w ! d" "frames ?w1 ! length (frames w) = []"
    using assms(1) by (simp_all add: nth_append)
  show "fst (map_columns_manually d cols tcs pick True w) = length (frames w)"
    by (simp add: map_columns_manually_def Let_def new_frame_def)
  show "frames (snd (map_columns_manually d cols tcs pick True w))
           = frames w @ [fold (\<lambda>c acc. if ?g c \<noteq> ''Skip''
                                       then AList.update (?g c) (getitem (frames w ! d) c) acc
                                       else acc) cols []]"
    using mapping_loop_frames [OF m fr(1), of "map (\<lambda>c. (c, ?g c)) cols"]
    by (simp add: map_columns_manually_def Let_def new_frame_def cm st_show_def mapped_fold_map)
  show "calls (snd (map_columns_manually d cols tcs pick True w)) = calls w"
    using mapping_loop_rest [of "length (frames w)" d "map (\<lambda>c. (c, ?g c)) cols" ?w1]
    by (simp add: map_columns_manually_def Let_def new_frame_def cm st_show_def)
qed

text \<open>Properties of the mapped frame.\<close>

lemma mapped_lookup:
  "t \<noteq> ''Skip'' \<Longrightarrow>
   map_of (fold (\<lambda>c acc. if g c \<noteq> ''Skip'' then AList.update (g c) (getitem df c) acc else acc) cols acc) t
     = (if filter (\<lambda>c. g c = t) cols = [] then map_of acc t
        else Some (getitem df (last (filter (\<lambda>c. g c = t) cols))))"
proof (induction cols arbitrary: acc)
  case Nil
  then show ?case by simp
next
  case (Cons c cols)
  then show ?case by (auto simp: AList.update_conv')
qed

lemma mapped_distinct:
  "distinct (map fst acc) \<Longrightarrow>
   distinct (map fst (fold (\<lambda>c acc. if g c \<noteq> ''Skip'' then AList.update (g c) (getitem df c) acc else acc) cols acc))"
  by (induction cols arbitrary: acc) (auto simp: AList.distinct_update)

lemma mapped_series:
  "(t, s) \<in> set (fold (\<lambda>c acc. if g c \<noteq> ''Skip'' then AList.update (g c) (getitem df c) acc else acc) cols acc)
   \<Longrightarrow> (t, s) \<in> set acc \<or> (\<exists>c \<in> set cols. g c = t \<and> t \<noteq> ''Skip'' \<and> s = getitem df c)"
proof (induction cols arbitrary: acc)
  case Nil
  then show ?case by simp
next
  case (Cons c cols)
  show ?case
  proof (cases "g c = ''Skip''")
    case True
    with Cons show ?thesis by auto
  next
    case False
    with Cons.prems have "(t, s) \<in> set (fold (\<lambda>c acc. if g c \<noteq> ''Skip'' then AList.update (g c) (getitem df c) acc else acc) cols (AList.update (g c) (getitem df c) acc))"
      by simp
    from Cons.IH [OF this] show ?thesis
      using set_update_subset [of "g c" "getitem df c" acc] False by auto
  qed
qed

lemma mapped_all_skipped:
  "\<forall>c \<in> set cols. g c = ''Skip'' \<Longrightarrow>
   fold (\<lambda>c acc. if g c \<noteq> ''Skip'' then AList.update (g c) (getitem df c) acc else acc) cols acc = acc"
  by (induction cols arbitrary: acc) auto

lemma mapped_nonempty:
  "\<exists>c \<in> set cols. g c \<noteq> ''Skip'' \<Longrightarrow>
   fold (\<lambda>c acc. if g c \<noteq> ''Skip'' then AList.update (g c) (getitem df c) acc else acc) cols acc \<noteq> []"
proof -
  assume "\<exists>c \<in> set cols. g c \<noteq> ''Skip''"
  then obtain c where c: "c \<in> set cols" "g c \<noteq> ''Skip''" by blast
  then have "filter (\<lambda>x. g x = g c) cols \<noteq> []" by (auto simp: filter_empty_conv)
  with mapped_lookup [of "g c" g df cols acc] c(2)
  have "map_of (fold (\<lambda>c acc. if g c \<noteq> ''Skip'' then AList.update (g c) (getitem df c) acc else acc) cols acc) (g c) \<noteq> None"
    by simp
  then show ?thesis by auto
qed

lemma length_getitem: "wf_frame df \<Longrightarrow> c \<in> set (columns df) \<Longrightarrow> length (getitem df c) = len_df df"
proof -
  assume wf: "wf_frame df" and c: "c \<in> set (columns df)"
  then obtain s where s: "(c, s) \<in> set df" by (auto simp: columns_def)
  with wf have "map_of df c = Some s" by (simp add: wf_frame_def columns_def)
  moreover from wf s have "length s = len_df df" by (auto simp: wf_frame_def list_all_iff)
  ultimately show ?thesis by (simp add: getitem_def)
qed

lemma len_df_mapped:
  assumes "wf_frame df" "\<exists>c \<in> set (columns df). g c \<noteq> ''Skip''"
  shows "len_df (fold (\<lambda>c acc. if g c \<noteq> ''Skip'' then AList.update (g c) (getitem df c) acc else acc) (columns df) [])
           = len_df df"
proof -
  let ?out = "fold (\<lambda>c acc. if g c \<noteq> ''Skip'' then AList.update (g c) (getitem df c) acc else acc) (columns df) []"
  from mapped_nonempty [OF assms(2)] obtain t s rest where o: "?out = (t, s) # rest"
    by (cases ?out) auto
  then have "(t, s) \<in> set ?out" by simp
  from mapped_series [OF this] obtain c where "c \<in> set (columns df)" "s = getitem df c" by auto
  with length_getitem [OF assms(1)] have "length s = len_df df" by simp
  with o show ?thesis by (simp add: len_df_def)
qed

text \<open>
  Claim C10, as the code has it. When the mapping is applied to the uploaded frame, every
  destination other than \<open>Skip\<close> that one or more file columns are mapped to is a column of
  the output exactly once, with the values of the last such file column in file order.
  When at least one file column is mapped to a destination other than \<open>Skip\<close>, the output has
  as many rows as the uploaded frame and each of its columns is a whole column of the
  uploaded frame, so the rows keep their order. When every file column is skipped, the
  output is the frame without columns, which has no rows. The uploaded frame is not changed.
\<close>

theorem manual_mapping_last_wins:
  assumes "d < length (frames w)" and "wf_frame (frames w ! d)"
  shows "let df = frames w ! d;
             dest = (\<lambda>c. selectbox (''Skip'' # tcs) (pick c));
             r = map_columns_manually d (columns df) tcs pick True w;
             out = frames (snd r) ! fst r
         in (\<forall>t. t \<noteq> ''Skip'' \<and> filter (\<lambda>c. dest c = t) (columns df) \<noteq> [] \<longrightarrow>
               count_list (columns out) t = 1
               \<and> getitem out t = getitem df (last (filter (\<lambda>c. dest c = t) (columns df))))
            \<and> ((\<exists>c \<in> set (columns df). dest c \<noteq> ''Skip'') \<longrightarrow>
                 len_df out = len_df df
                 \<and> (\<forall>(t, s) \<in> set out. \<exists>c \<in> set (columns df). dest c = t \<and> s = getitem df c))
            \<and> ((\<forall>c \<in> set (columns df). dest c = ''Skip'') \<longrightarrow> out = [])
            \<and> frames (snd r) ! d = df"
proof -
  define df where "df = frames w ! d"
  define dest where "dest = (\<lambda>c. selectbox (''Skip'' # tcs) (pick c))"
  define r where "r = map_columns_manually d (columns df) tcs pick True w"
  define out where "out = frames (snd r) ! fst r"
  have dist: "distinct (columns df)" and wf: "wf_frame df"
    using assms(2) by (simp_all add: wf_frame_def df_def)
  have fr: "frames (snd r) = frames w @ [fold (\<lambda>c acc. if dest c \<noteq> ''Skip''
                then AList.update (dest c) (getitem df c) acc else acc) (columns df) []]"
    and fs: "fst r = length (frames w)"
    using map_columns_manually_pressed(1,2) [OF assms(1) dist [unfolded df_def], of tcs pick]
    unfolding r_def dest_def df_def by simp_all
  have out: "out = fold (\<lambda>c acc. if dest c \<noteq> ''Skip''
                then AList.update (dest c) (getitem df c) acc else acc) (columns df) []"
    by (simp add: out_def fr fs)
  have same: "frames (snd r) ! d = df"
    using assms(1) by (simp add: fr nth_append df_def)
  have dup: "count_list (columns out) t = 1
             \<and> getitem out t = getitem df (last (filter (\<lambda>c. dest c = t) (columns df)))"
    if t: "t \<noteq> ''Skip''" "filter (\<lambda>c. dest c = t) (columns df) \<noteq> []" for t
  proof -
    have l: "map_of out t = Some (getitem df (last (filter (\<lambda>c. dest c = t) (columns df))))"
      using mapped_lookup [OF t(1), of dest df "columns df" "[]"] t(2) by (simp add: out)
    then have "t \<in> set (columns out)"
      by (auto simp: columns_def dest: map_of_SomeD intro: rev_image_eqI)
    moreover have "distinct (columns out)"
      using mapped_distinct [of "[]" dest df "columns df"] by (simp add: out columns_def)
    ultimately have "count_list (columns out) t = 1" by (rule count_list_distinct [rotated])
    with l show ?thesis by (simp add: getitem_def)
  qed
  have rows: "len_df out = len_df df
              \<and> (\<forall>(t, s) \<in> set out. \<exists>c \<in> set (columns df). dest c = t \<and> s = getitem df c)"
    if ex: "\<exists>c \<in> set (columns df). dest c \<noteq> ''Skip''"
  proof -
    have "len_df out = len_df df"
      using len_df_mapped [OF wf ex] by (simp add: out)
    moreover have "\<exists>c \<in> set (columns df). dest c = t \<and> s = getitem df c" if "(t, s) \<in> set out" for t s
      using mapped_series [of t s dest df "columns df" "[]"] that by (auto simp: out)
    ultimately show ?thesis by blast
  qed
  have skipped: "out = []" if "\<forall>c \<in> set (columns df). dest c = ''Skip''"
    using mapped_all_skipped [OF that, of df "[]"] by (simp add: out)
  from dup rows skipped same show ?thesis
    unfolding Let_def df_def [symmetric] dest_def [symmetric] r_def [symmetric] out_def [symmetric]
    by blast
qed

theorem manual_mapping_last_wins_witness:
  "(let w = (start []) \<lparr>frames := [[(''a'', [Str ''a1'', Str ''a2'']),
                                    (''b'', [Str ''b1'', Str ''b2'']),
                                    (''c'', [Null, Str ''c2''])]]\<rparr>;
        r = map_columns_manually 0 [''a'', ''b'', ''c''] [''x'', ''y'']
              (\<lambda>c. if c = ''c'' then ''zzz'' else ''x'') True w;
        out = frames (snd r) ! fst r
    in count_list (columns out) ''x'' = 1
       \<and> getitem out ''x'' = [Str ''b1'', Str ''b2'']
       \<and> len_df out = 2
       \<and> frames (snd r) ! 0 = frames w ! 0)"
proof -
  let ?f = "[(''a'', [Str ''a1'', Str ''a2'']), (''b'', [Str ''b1'', Str ''b2'']), (''c'', [Null, Str ''c2''])]"
  let ?w = "(start []) \<lparr>frames := [?f]\<rparr>"
  let ?pick = "\<lambda>c. if c = ''c'' then ''zzz'' else ''x''"
  have h1: "0 < length (frames ?w)" by simp
  have h2: "wf_frame (frames ?w ! 0)" by (simp add: wf_frame_def columns_def len_df_def)
  have cols: "columns (frames ?w ! 0) = [''a'', ''b'', ''c'']" by (simp add: columns_def)
  have dest: "selectbox (''Skip'' # [''x'', ''y'']) (?pick ''a'') = ''x''"
    "selectbox (''Skip'' # [''x'', ''y'']) (?pick ''b'') = ''x''"
    "selectbox (''Skip'' # [''x'', ''y'']) (?pick ''c'') = ''Skip''"
    by (simp_all add: selectbox_def)
  have g: "getitem ?f ''b'' = [Str ''b1'', Str ''b2'']" "len_df ?f = 2"
    by (simp_all add: getitem_def len_df_def)
  let ?r = "map_columns_manually 0 [''a'', ''b'', ''c''] [''x'', ''y''] ?pick True ?w"
  let ?out = "frames (snd ?r) ! fst ?r"
  note T = manual_mapping_last_wins [OF h1 h2, of "[''x'', ''y'']" ?pick, unfolded Let_def cols]
  from T [THEN conjunct1, rule_format, of "''x''"]
  have a: "count_list (columns ?out) ''x'' = 1 \<and> getitem ?out ''x'' = [Str ''b1'', Str ''b2'']"
    by (simp add: selectbox_def getitem_def)
  from T [THEN conjunct2, THEN conjunct1]
  have b: "len_df ?out = 2"
    by (simp add: selectbox_def len_df_def)
  from T [THEN conjunct2, THEN conjunct2, THEN conjunct2]
  have c: "frames (snd ?r) ! 0 = frames ?w ! 0"
    by simp
  from a b c show ?thesis unfolding Let_def by simp
qed

text \<open>The claim as stated lets the mapping never change the number of rows. With the one
  column of a file of two rows left on \<open>Skip\<close>, the mapped frame has no rows.\<close>

theorem manual_mapping_all_skipped_counterexample:
  "len_df (frames ((start []) \<lparr>frames := [[(''a'', [Str ''a1'', Str ''a2''])]]\<rparr>) ! 0) = 2
   \<and> len_df (frames (snd (map_columns_manually 0 [''a''] [''x''] (\<lambda>c. ''Skip'') True
                 ((start []) \<lparr>frames := [[(''a'', [Str ''a1'', Str ''a2''])]]\<rparr>)))
             ! fst (map_columns_manually 0 [''a''] [''x''] (\<lambda>c. ''Skip'') True
                 ((start []) \<lparr>frames := [[(''a'', [Str ''a1'', Str ''a2''])]]\<rparr>))) = 0"
  by (simp add: map_columns_manually_def Let_def new_frame_def st_show_def selectbox_def
        len_df_def start_def)

section \<open>The upload without a column mapping\<close>

lemma keys_row_at: "map fst (row_at df i) = columns df"
  by (simp add: row_at_def columns_def case_prod_beta)

lemma keys_to_dict_records: "r \<in> set (to_dict_records df) \<Longrightarrow> map fst r = columns df"
  by (auto simp: to_dict_records_def keys_row_at)

lemma get_table_columns_row:
  assumes "fst (cl (Select t 1) (db w)) = Inr (row # rest)"
  shows "fst (get_table_columns cl t w) = map fst row
         \<and> calls (snd (get_table_columns cl t w)) = calls w @ [Select t 1]
         \<and> frames (snd (get_table_columns cl t w)) = frames w"
proof (cases rule: execute_cases [of cl "Select t 1" w])
  case (raised e w')
  with assms show ?thesis by simp
next
  case (returned d w')
  with assms show ?thesis by (auto simp: get_table_columns_def)
qed

lemma calls_show_column_matching: "calls (show_column_matching tc fc w) = calls w"
  by (simp add: show_column_matching_def Let_def st_show_def)

lemma frames_show_column_matching: "frames (show_column_matching tc fc w) = frames w"
  by (simp add: show_column_matching_def Let_def st_show_def)

lemma calls_remove_empty_rows: "calls (snd (remove_empty_rows d re w)) = calls w"
  by (simp add: remove_empty_rows_def new_frame_def st_show_def)

lemma calls_limit_rows: "calls (snd (limit_rows d n w)) = calls w"
  by (cases "number_input 1 (len_df (frames w ! d)) (len_df (frames w ! d)) n")
     (simp_all add: limit_rows_def new_frame_def)

lemma calls_clean_rows: "calls (snd (clean_rows d re n w)) = calls w"
  by (cases "remove_empty_rows d re w")
     (use calls_remove_empty_rows [of d re w] in \<open>simp add: clean_rows_def calls_limit_rows\<close>)

lemma calls_bulk_insert_records:
  "calls (snd (bulk_insert_records cl t df w)) = calls w @ [Insert t (Many (to_dict_records df))]"
  by (cases rule: execute_cases [of cl "Insert t (Many (to_dict_records df))" w])
     (simp_all add: bulk_insert_records_def Let_def)

lemma number_input_ok:
  "0 < m \<Longrightarrow> number_input 1 m m n = Inr (if 1 \<le> n \<and> n \<le> m then n else m)"
  by (auto simp: number_input_def)

lemma bulk_upload_tab_no_mapping:
  assumes sel: "fst (cl (Select t 1) (db w)) = Inr (row # rest)" and row: "row \<noteq> []"
    and nomap: "\<not> map_columns inp" and up: "upload inp"
    and some: "0 < len_df (if remove_empty inp then dropna file else file)"
  shows "calls (bulk_upload_tab cl t (Inr file) inp w)
           = calls w @ [Select t 1,
               Insert t (Many (to_dict_records
                 (head (if remove_empty inp then dropna file else file)
                    (if 1 \<le> upload_limit inp
                        \<and> upload_limit inp \<le> len_df (if remove_empty inp then dropna file else file)
                     then upload_limit inp
                     else len_df (if remove_empty inp then dropna file else file)))))]"
proof -
  define w1 where "w1 = st_show (Text Success (''File loaded successfully! Found '' @ str_nat (len_df file) @ '' rows'')) (w\<lparr>frames := frames w @ [file]\<rparr>)"
  define d where "d = length (frames w)"
  have f1: "frames w1 = frames w @ [file]" and c1: "calls w1 = calls w" and d1: "db w1 = db w"
    by (simp_all add: w1_def st_show_def)
  define w2 where "w2 = snd (get_table_columns cl t w1)"
  have sel1: "fst (cl (Select t 1) (db w1)) = Inr (row # rest)" using sel d1 by simp
  have g: "get_table_columns cl t w1 = (map fst row, w2)"
    using get_table_columns_row [of cl t w1 row rest, OF sel1] by (simp add: w2_def prod_eq_iff)
  have f2: "frames w2 = frames w @ [file]" and c2: "calls w2 = calls w @ [Select t 1]"
    using get_table_columns_row [of cl t w1 row rest, OF sel1] by (simp_all add: w2_def f1 c1)
  define w3 where "w3 = show_column_matching (map fst row) (columns (frames w2 ! d)) w2"
  have f3: "frames w3 = frames w @ [file]" and c3: "calls w3 = calls w @ [Select t 1]"
    by (simp_all add: w3_def frames_show_column_matching calls_show_column_matching f2 c2)
  have dl: "d < length (frames w3)" and fd: "frames w3 ! d = file"
    by (simp_all add: f3 d_def)
  obtain r w5 where cr: "clean_rows d (remove_empty inp) (upload_limit inp) w3 = (r, w5)"
    by (cases "clean_rows d (remove_empty inp) (upload_limit inp) w3")
  define cleaned where "cleaned = (if remove_empty inp then dropna file else file)"
  define k where "k = (if 1 \<le> upload_limit inp \<and> upload_limit inp \<le> len_df cleaned
                       then upload_limit inp else len_df cleaned)"
  have pos: "0 < len_df cleaned" using some by (simp add: cleaned_def)
  have "map_sum id (\<lambda>x. frames w5 ! x) r = Inr (head cleaned k)"
    using clean_rows_frames [OF dl cr] number_input_ok [OF pos, of "upload_limit inp"]
    unfolding fd Let_def cleaned_def [symmetric] k_def [symmetric] by simp
  then obtain fin where r: "r = Inr fin" and fin: "frames w5 ! fin = head cleaned k"
    by (cases r) auto
  have c5: "calls w5 = calls w @ [Select t 1]"
    using calls_clean_rows [of d "remove_empty inp" "upload_limit inp" w3] cr c3 by simp
  have cr': "clean_rows d (remove_empty inp) (upload_limit inp) w3 = (Inr fin, w5)"
    using cr r by simp
  have tc: "(map fst row \<noteq> []) = True" "map_columns inp = False" "upload inp = True"
    using row nomap up by simp_all
  have eq: "bulk_upload_tab cl t (Inr file) inp w =
          (case bulk_insert_records cl t (head cleaned k) w5 of
             ((success, message), w6) \<Rightarrow>
               if success then st_show (Text Success message) w6 else st_show (Text Error message) w6)"
    unfolding bulk_upload_tab_def
    by (simp only: sum.case new_frame_def prod.case d_def [symmetric] w1_def [symmetric] g tc
          if_True if_False Let_def w3_def [symmetric] cr' fin)
  have "calls (bulk_upload_tab cl t (Inr file) inp w)
          = calls (snd (bulk_insert_records cl t (head cleaned k) w5))"
    unfolding eq by (simp add: calls_st_show split: prod.splits)
  also have "\<dots> = calls w @ [Select t 1, Insert t (Many (to_dict_records (head cleaned k)))]"
    by (simp add: calls_bulk_insert_records c5)
  finally show ?thesis unfolding k_def cleaned_def .
qed









lemma page_without_table_columns:
  assumes "fst (cl (Select t 1) (db w)) = Inr []"
  shows "ui (bulk_upload_tab cl t (Inr file) inp w)
           = ui w @ [Text Success (''File loaded successfully! Found '' @ str_nat (len_df file) @ '' rows''),
                     Text Error ''Could not retrieve table columns'']"
proof -
  define w1 where "w1 = st_show (Text Success (''File loaded successfully! Found '' @ str_nat (len_df file) @ '' rows'')) (w\<lparr>frames := frames w @ [file]\<rparr>)"
  have u1: "ui w1 = ui w @ [Text Success (''File loaded successfully! Found '' @ str_nat (len_df file) @ '' rows'')]"
    and d1: "db w1 = db w"
    by (simp_all add: w1_def st_show_def)
  obtain cs w2 where g: "get_table_columns cl t w1 = (cs, w2)" by (cases "get_table_columns cl t w1")
  have "cs = [] \<and> ui w2 = ui w1"
  proof (cases rule: execute_cases [of cl "Select t 1" w1])
    case (raised e w')
    with assms d1 show ?thesis by simp
  next
    case (returned d w')
    with assms d1 g show ?thesis by (auto simp: get_table_columns_def)
  qed
  then have tc: "(cs \<noteq> []) = False" and u2: "ui w2 = ui w1" by simp_all
  have "bulk_upload_tab cl t (Inr file) inp w
          = st_show (Text Error ''Could not retrieve table columns'') w2"
    unfolding bulk_upload_tab_def
    by (simp only: sum.case new_frame_def prod.case w1_def [symmetric] g tc if_False)
  then show ?thesis by (simp add: st_show_def u2 u1)
qed




text \<open>
  Claim C1, as the code has it. When the table has columns, no mapping is applied, the upload
  button is pressed and rows are left after cleaning, the tab executes the fetch of the
  table columns and then one insert. The batch is the first rows, up to the limit, of the
  records of the file (those without a missing field when rows with empty values are
  removed), and every record of the batch has exactly the columns of the file: none is
  dropped for being absent from the table.
\<close>

theorem no_mapping_submits_file_columns:
  assumes "fst (cl (Select t 1) (db w)) = Inr (row # rest)" and "row \<noteq> []"
    and "\<not> map_columns inp" and "upload inp"
    and "(if remove_empty inp then filter (\<lambda>r. \<not> has_missing r) (to_dict_records file)
          else to_dict_records file) \<noteq> []"
  shows "let rows = (if remove_empty inp then filter (\<lambda>r. \<not> has_missing r) (to_dict_records file)
                     else to_dict_records file);
             n = (if 1 \<le> upload_limit inp \<and> upload_limit inp \<le> length rows
                  then upload_limit inp else length rows)
         in calls (bulk_upload_tab cl t (Inr file) inp w)
              = calls w @ [Select t 1, Insert t (Many (take n rows))]
            \<and> (\<forall>r \<in> set (take n rows). map fst r = columns file)"
proof -
  define cleaned where "cleaned = (if remove_empty inp then dropna file else file)"
  define rows where "rows = (if remove_empty inp then filter (\<lambda>r. \<not> has_missing r) (to_dict_records file)
                              else to_dict_records file)"
  define n where "n = (if 1 \<le> upload_limit inp \<and> upload_limit inp \<le> length rows
                       then upload_limit inp else length rows)"
  have rows: "to_dict_records cleaned = rows"
    by (simp add: cleaned_def rows_def to_dict_records_dropna)
  then have len: "len_df cleaned = length rows"
    using length_to_dict_records [of cleaned] by simp
  with assms(5) have pos: "0 < len_df (if remove_empty inp then dropna file else file)"
    by (simp add: rows_def [symmetric] cleaned_def [symmetric])
  have "calls (bulk_upload_tab cl t (Inr file) inp w)
          = calls w @ [Select t 1, Insert t (Many (to_dict_records (head cleaned n)))]"
    using bulk_upload_tab_no_mapping [of cl t w row rest inp "file", OF assms(1-4) pos]
    unfolding cleaned_def [symmetric] len n_def [symmetric] .
  then have c: "calls (bulk_upload_tab cl t (Inr file) inp w)
          = calls w @ [Select t 1, Insert t (Many (take n rows))]"
    by (simp add: to_dict_records_head rows)
  have k: "map fst r = columns file" if "r \<in> set (take n rows)" for r
  proof -
    from that have "r \<in> set rows" by (rule in_set_takeD)
    then have "r \<in> set (to_dict_records file)" by (auto simp: rows_def split: if_splits)
    then show ?thesis by (rule keys_to_dict_records)
  qed
  from c k show ?thesis
    unfolding Let_def rows_def [symmetric] n_def [symmetric] by blast
qed

theorem no_mapping_submits_file_columns_witness:
  "calls (bulk_upload_tab memory_store ''items''
            (Inr [(''name'', [Str ''a'', Str ''b'', Str ''c'']), (''extra'', [Null, Number 2, Number 3])])
            (plain_upload \<lparr>remove_empty := True, upload_limit := 1\<rparr>)
            (start [[(''name'', Str ''bob''), (''email'', Str ''bob@example.org'')]]))
     = [Select ''items'' 1, Insert ''items'' (Many [[(''name'', Str ''b''), (''extra'', Number 2)]])]"
proof -
  let ?w = "start [[(''name'', Str ''bob''), (''email'', Str ''bob@example.org'')]]"
  let ?f = "[(''name'', [Str ''a'', Str ''b'', Str ''c'']), (''extra'', [Null, Number 2, Number 3])]"
  let ?inp = "plain_upload \<lparr>remove_empty := True, upload_limit := 1\<rparr>"
  have s: "fst (memory_store (Select ''items'' 1) (db ?w))
             = Inr ([(''name'', Str ''bob''), (''email'', Str ''bob@example.org'')] # [])"
    by (simp add: memory_store_def start_def)
  have r: "[(''name'', Str ''bob''), (''email'', Str ''bob@example.org'')] \<noteq> []" by simp
  have p: "\<not> map_columns ?inp" "upload ?inp" "remove_empty ?inp" "upload_limit ?inp = 1"
    by (simp_all add: plain_upload_def)
  have t: "to_dict_records ?f = [[(''name'', Str ''a''), (''extra'', Null)],
                                 [(''name'', Str ''b''), (''extra'', Number 2)],
                                 [(''name'', Str ''c''), (''extra'', Number 3)]]"
    by (simp add: to_dict_records_def len_df_def row_at_def upt_rec)
  have f: "filter (\<lambda>r. \<not> has_missing r) (to_dict_records ?f)
             = [[(''name'', Str ''b''), (''extra'', Number 2)], [(''name'', Str ''c''), (''extra'', Number 3)]]"
    by (simp add: t has_missing_def)
  have ne: "(if remove_empty ?inp then filter (\<lambda>r. \<not> has_missing r) (to_dict_records ?f)
             else to_dict_records ?f) \<noteq> []"
    using p(3) f by simp
  from no_mapping_submits_file_columns [of memory_store "''items''" ?w
         "[(''name'', Str ''bob''), (''email'', Str ''bob@example.org'')]" "[]" ?inp ?f, OF s r p(1,2) ne]
  show ?thesis
    unfolding Let_def using p(3,4) f by (simp add: start_def)
qed

lemma to_dict_records_ten_rows:
  "to_dict_records ten_rows
     = replicate 10 [(''name'', Str ''ann''), (''email'', Str ''ann@example.org''), (''extra'', Number 1)]"
  by (simp add: to_dict_records_def ten_rows_def len_df_def row_at_def upt_rec eval_nat_numeral)

text \<open>The claim as stated has the columns of the file that the table lacks dropped. For the
  file of ten rows with the columns \<open>name\<close>, \<open>email\<close> and \<open>extra\<close> and a table with the
  columns \<open>name\<close> and \<open>email\<close>, the batch has ten records and each has the field
  \<open>extra\<close>.\<close>

theorem no_mapping_keeps_extra_column_counterexample:
  "fst (get_table_columns memory_store ''items''
          (start [[(''name'', Str ''bob''), (''email'', Str ''bob@example.org'')]]))
     = [''name'', ''email'']
   \<and> columns ten_rows = [''name'', ''email'', ''extra'']
   \<and> calls (bulk_upload_tab memory_store ''items'' (Inr ten_rows) plain_upload
              (start [[(''name'', Str ''bob''), (''email'', Str ''bob@example.org'')]]))
     = [Select ''items'' 1,
        Insert ''items'' (Many (replicate 10
          [(''name'', Str ''ann''), (''email'', Str ''ann@example.org''), (''extra'', Number 1)]))]"
proof -
  let ?w = "start [[(''name'', Str ''bob''), (''email'', Str ''bob@example.org'')]]"
  have s: "fst (memory_store (Select ''items'' 1) (db ?w))
             = Inr ([(''name'', Str ''bob''), (''email'', Str ''bob@example.org'')] # [])"
    by (simp add: memory_store_def start_def)
  have p: "\<not> map_columns plain_upload" "upload plain_upload" "remove_empty plain_upload = False"
    "upload_limit plain_upload = 10"
    by (simp_all add: plain_upload_def)
  have l: "len_df ten_rows = 10" by (simp add: ten_rows_def len_df_def)
  have h: "head ten_rows 10 = ten_rows" by (simp add: head_def ten_rows_def)
  have "calls (bulk_upload_tab memory_store ''items'' (Inr ten_rows) plain_upload ?w)
          = [Select ''items'' 1, Insert ''items'' (Many (to_dict_records ten_rows))]"
    using bulk_upload_tab_no_mapping [of memory_store "''items''" ?w _ "[]" plain_upload ten_rows, OF s _ p(1,2)]
    by (simp add: p l h start_def)
  moreover have "fst (get_table_columns memory_store ''items'' ?w) = [''name'', ''email'']"
    using get_table_columns_row [of memory_store "''items''" ?w _ "[]", OF s] by simp
  moreover have "columns ten_rows = [''name'', ''email'', ''extra'']"
    by (simp add: columns_def ten_rows_def)
  ultimately show ?thesis by (simp add: to_dict_records_ten_rows)
qed

end
